theory Spec2Isabelle
  imports Complex_Main "HOL-Library.Multiset"
begin

section \<open>Python values used by search.py\<close>

text \<open>
  Exceptions are values. \<open>ValueError\<close> and \<open>IndexError\<close> are the two exceptions that
  the numpy and list operations written in search.py raise themselves; the external
  collaborators (embedding service, classifier, retrievers) are parameters that return
  \<open>py_error + 'a\<close>, so whatever they raise propagates as in Python, where search.py has
  no \<open>try\<close> at all.
\<close>

datatype py_error = ValueError | IndexError | ExternalError

text \<open>
  langchain's \<open>Document\<close>: a content string and a metadata dictionary. The code only
  carries the metadata around and compares documents with \<open>==\<close> (\<open>docs[i] in res\<close>),
  which is equality of both fields; so the metadata is a type parameter and HOL equality
  on the record is the comparison.
\<close>

record 'm Document =
  page_content :: string
  metadata :: 'm

text \<open>
  The caller-owned log list and the standard output, the two things search.py writes to.
\<close>

record io =
  logs :: "string list"
  stdout :: string

text \<open>\<open>str(n)\<close> for a non-negative Python int: its decimal digits.\<close>

definition digit_char :: "nat \<Rightarrow> char" where
  "digit_char d = ''0123456789'' ! d"

fun str_nat :: "nat \<Rightarrow> string" where
  "str_nat n = (if n < 10 then [digit_char n] else str_nat (n div 10) @ [digit_char (n mod 10)])"

declare str_nat.simps [simp del]

text \<open>
  \<open>s.split()\<close> with no argument: the maximal runs of non-whitespace characters, in
  order; leading, trailing and repeated whitespace give no empty word. A \<open>string\<close>
  here is a list of code points below 256; in that range Python's \<open>str.isspace\<close>
  holds for 9..13, 28..32, 133 and 160.
\<close>

definition py_isspace :: "char \<Rightarrow> bool" where
  "py_isspace c =
     (let n = (of_char c :: nat)
      in (9 \<le> n \<and> n \<le> 13) \<or> (28 \<le> n \<and> n \<le> 32) \<or> n = 133 \<or> n = 160)"

fun split_ws :: "string \<Rightarrow> string \<Rightarrow> string list" where
  "split_ws [] w = (if w = [] then [] else [w])"
| "split_ws (c # cs) w =
     (if py_isspace c then (if w = [] then split_ws cs [] else w # split_ws cs [])
      else split_ws cs (w @ [c]))"

definition py_split :: "string \<Rightarrow> string list" where
  "py_split s = split_ws s []"

section \<open>The merge operation (search.py, \<open>_merge_docs\<close>)\<close>

text \<open>
  A loop body either goes on with the loop variables (\<open>continue\<close> or falling through)
  or leaves the function with its return value (\<open>return res\<close> inside the loops).
\<close>

datatype ('s, 'r) flow = Continue 's | Return 'r

text \<open>
  The three lines that end every path of \<open>_merge_docs\<close>:
  \<^verbatim>\<open>if verbose: print("words length: ", cur_count)\<close> and
  \<^verbatim>\<open>logs.append("words length: " + str(cur_count))\<close>.
  \<open>print\<close> with two arguments separates them by a space and ends the line.
\<close>

definition log_words_length :: "bool \<Rightarrow> nat \<Rightarrow> io \<Rightarrow> io" where
  "log_words_length verbose cur_count s =
     s\<lparr>logs := logs s @ [''words length: '' @ str_nat cur_count],
       stdout := (if verbose
                  then stdout s @ ''words length: '' @ '' '' @ str_nat cur_count @ [CHR 0x0A]
                  else stdout s)\<rparr>"

text \<open>
  The body of the inner loop, for round \<open>i\<close> and one ranked list \<open>docs\<close>; the loop
  variables are \<open>(res, cur_count)\<close>. \<open>jieba_cut\<close> is the external segmenter
  (\<open>list(jieba.cut(text))\<close>), a parameter.
\<close>

definition merge_body ::
  "(string \<Rightarrow> string list) \<Rightarrow> string \<Rightarrow> bool \<Rightarrow> io \<Rightarrow> nat \<Rightarrow> 'm Document list \<Rightarrow>
   'm Document list \<times> nat \<Rightarrow> ('m Document list \<times> nat, 'm Document list \<times> io) flow" where
  "merge_body jieba_cut language verbose s i docs st =
     (case st of (res, cur_count) \<Rightarrow>
        if i \<ge> length docs then Continue st
        else if docs ! i \<in> set res then Continue st
        else if language = ''ch'' then
          (let words_len = length (jieba_cut (page_content (docs ! i))) in
           if cur_count + words_len > 1800
           then Return (res, log_words_length verbose cur_count s)
           else Continue (res @ [docs ! i], cur_count + words_len))
        else
          (let words_len = length (py_split (page_content (docs ! i))) in
           if cur_count + words_len > 3000
           then Return (res, log_words_length verbose cur_count s)
           else Continue (res @ [docs ! i], cur_count + words_len)))"

text \<open>\<^verbatim>\<open>for docs in docs_list:\<close> in round \<open>i\<close>.\<close>

fun merge_round ::
  "(string \<Rightarrow> string list) \<Rightarrow> string \<Rightarrow> bool \<Rightarrow> io \<Rightarrow> nat \<Rightarrow> 'm Document list list \<Rightarrow>
   'm Document list \<times> nat \<Rightarrow> ('m Document list \<times> nat, 'm Document list \<times> io) flow" where
  "merge_round jieba_cut language verbose s i [] st = Continue st"
| "merge_round jieba_cut language verbose s i (docs # rest) st =
     (case merge_body jieba_cut language verbose s i docs st of
        Return r \<Rightarrow> Return r
      | Continue st' \<Rightarrow> merge_round jieba_cut language verbose s i rest st')"

text \<open>\<^verbatim>\<open>for i in range(topK):\<close> over the rounds still to run.\<close>

fun merge_rounds ::
  "(string \<Rightarrow> string list) \<Rightarrow> string \<Rightarrow> bool \<Rightarrow> io \<Rightarrow> 'm Document list list \<Rightarrow> nat list \<Rightarrow>
   'm Document list \<times> nat \<Rightarrow> ('m Document list \<times> nat, 'm Document list \<times> io) flow" where
  "merge_rounds jieba_cut language verbose s docs_list [] st = Continue st"
| "merge_rounds jieba_cut language verbose s docs_list (i # later) st =
     (case merge_round jieba_cut language verbose s i docs_list st of
        Return r \<Rightarrow> Return r
      | Continue st' \<Rightarrow> merge_rounds jieba_cut language verbose s docs_list later st')"

text \<open>
  \<open>_merge_docs(docs_list, topK, language, verbose, logs)\<close>. \<open>topK\<close> is a Python int;
  \<open>range(topK)\<close> is empty when it is not positive. The result is the returned list
  and the log and output after the call.
\<close>

definition merge_docs ::
  "(string \<Rightarrow> string list) \<Rightarrow> 'm Document list list \<Rightarrow> int \<Rightarrow> string \<Rightarrow> bool \<Rightarrow> io \<Rightarrow>
   'm Document list \<times> io" where
  "merge_docs jieba_cut docs_list topK language verbose s =
     (case merge_rounds jieba_cut language verbose s docs_list [0..<nat topK] ([], 0) of
        Return r \<Rightarrow> r
      | Continue (res, cur_count) \<Rightarrow> (res, log_words_length verbose cur_count s))"

text \<open>
  The word estimate of one document and the budget, as \<open>_merge_docs\<close> computes them
  (lines 130 and 137; the constants of lines 131 and 138), and the estimate of a list.
\<close>

definition words_len :: "(string \<Rightarrow> string list) \<Rightarrow> string \<Rightarrow> 'm Document \<Rightarrow> nat" where
  "words_len jieba_cut language d =
     (if language = ''ch'' then length (jieba_cut (page_content d))
      else length (py_split (page_content d)))"

definition budget :: "string \<Rightarrow> nat" where
  "budget language = (if language = ''ch'' then 1800 else 3000)"

definition total_words :: "(string \<Rightarrow> string list) \<Rightarrow> string \<Rightarrow> 'm Document list \<Rightarrow> nat" where
  "total_words jieba_cut language ds = sum_list (map (words_len jieba_cut language) ds)"

text \<open>The loop invariant: the counter is the estimate of the list built so far, it is
  within the budget, and the list has no two equal documents.\<close>

definition merge_inv :: "(string \<Rightarrow> string list) \<Rightarrow> string \<Rightarrow> 'm Document list \<times> nat \<Rightarrow> bool" where
  "merge_inv jieba_cut language st =
     (snd st = total_words jieba_cut language (fst st) \<and> snd st \<le> budget language \<and>
      distinct (fst st))"

section \<open>Python list and numpy operations used by the retrievers\<close>

text \<open>\<open>xs[i]\<close> for a Python int \<open>i\<close>: a negative index counts from the end, an index
  outside the list raises \<open>IndexError\<close>.\<close>

definition py_index :: "'a list \<Rightarrow> int \<Rightarrow> py_error + 'a" where
  "py_index xs i =
     (if 0 \<le> i \<and> i < int (length xs) then Inr (xs ! nat i)
      else if i < 0 \<and> - int (length xs) \<le> i then Inr (xs ! nat (int (length xs) + i))
      else Inl IndexError)"

text \<open>\<open>xs[start:stop]\<close>: a negative bound counts from the end, and both bounds are
  clipped to the list; it never raises.\<close>

definition slice_bound :: "nat \<Rightarrow> int \<Rightarrow> nat" where
  "slice_bound n j = (if j < 0 then nat (int n + j) else min n (nat j))"

definition py_slice :: "'a list \<Rightarrow> int \<Rightarrow> int \<Rightarrow> 'a list" where
  "py_slice xs start stop =
     (let a = slice_bound (length xs) start; b = slice_bound (length xs) stop
      in take (b - a) (drop a xs))"

text \<open>
  What \<open>db.get(include=['embeddings','documents','metadatas'])\<close> returns: three lists,
  aligned by index. An embedding is a vector of floats, modelled over the reals.
\<close>

record 'm store =
  documents :: "string list"
  metadatas :: "'m list"
  embeddings :: "real list list"

text \<open>
  \<^verbatim>\<open>np.concatenate([query_embeds[None, ...], indx['embeddings']])\<close>: the query is a
  \<open>1 \<times> d\<close> matrix; the list of corpus embeddings becomes an \<open>N \<times> d'\<close> matrix, or, when
  the list is empty, a one-dimensional array of shape \<open>(0,)\<close>. numpy raises
  \<open>ValueError\<close> unless both are two-dimensional with \<open>d = d'\<close>.
\<close>

definition np_concatenate_rows :: "real list \<Rightarrow> real list list \<Rightarrow> py_error + real list list" where
  "np_concatenate_rows query_embeds embs =
     (if embs \<noteq> [] \<and> list_all (\<lambda>e. length e = length query_embeds) embs
      then Inr (query_embeds # embs) else Inl ValueError)"

text \<open>\<open>np.where(a == v)[0]\<close>: the positions of \<open>v\<close> in \<open>a\<close>, ascending.\<close>

definition np_where_eq :: "nat list \<Rightarrow> nat \<Rightarrow> nat list" where
  "np_where_eq a v = filter (\<lambda>i. a ! i = v) [0..<length a]"

text \<open>\<open>np.max\<close> and \<open>np.min\<close> of a one-dimensional array; numpy raises \<open>ValueError\<close> on
  an empty one.\<close>

fun np_max :: "real list \<Rightarrow> py_error + real" where
  "np_max [] = Inl ValueError"
| "np_max (v # vs) = Inr (fold max vs v)"

fun np_min :: "real list \<Rightarrow> py_error + real" where
  "np_min [] = Inl ValueError"
| "np_min (v # vs) = Inr (fold min vs v)"

section \<open>The margin retriever (search.py, \<open>_get_relevant_doc_svm\<close>)\<close>

text \<open>
  Lines 64 to 66: find the first position of row 0 (the query) in \<open>sorted_ix\<close> and swap
  it with the first slot. \<open>np.where(...)[0][0]\<close> raises \<open>IndexError\<close> when 0 does
  not occur. The tuple assignment reads both entries before it writes.
\<close>

definition swap_query_first :: "nat list \<Rightarrow> py_error + nat list" where
  "swap_query_first sorted_ix =
     (case np_where_eq sorted_ix 0 of
        [] \<Rightarrow> Inl IndexError
      | zero_index # _ \<Rightarrow>
          if zero_index \<noteq> 0
          then Inr (sorted_ix[0 := sorted_ix ! zero_index, zero_index := sorted_ix ! 0])
          else Inr sorted_ix)"

text \<open>Lines 68 and 69: min-max scaling of the scores, with \<open>1e-6\<close> added to the range.\<close>

definition normalize_similarities :: "real list \<Rightarrow> py_error + real list" where
  "normalize_similarities similarities =
     (case np_max similarities of Inl e \<Rightarrow> Inl e | Inr mx \<Rightarrow>
      case np_min similarities of Inl e \<Rightarrow> Inl e | Inr mn \<Rightarrow>
        (let denominator = mx - mn + 1 / 1000000
         in Inr (map (\<lambda>v. (v - mn) / denominator) similarities)))"

text \<open>
  The condition of line 73: \<open>relevancy_threshold is None or
  normalized_similarities[row] >= relevancy_threshold\<close>; the score is read only when
  there is a threshold, and reading outside the array raises.
\<close>

definition passes_threshold :: "real option \<Rightarrow> real list \<Rightarrow> nat \<Rightarrow> py_error + bool" where
  "passes_threshold relevancy_threshold normalized row =
     (case relevancy_threshold of
        None \<Rightarrow> Inr True
      | Some t \<Rightarrow> (if row < length normalized then Inr (normalized ! row \<ge> t)
                  else Inl IndexError))"

text \<open>The same condition as a truth value, for a row inside the array.\<close>

definition passes :: "real option \<Rightarrow> real list \<Rightarrow> nat \<Rightarrow> bool" where
  "passes relevancy_threshold normalized row =
     (case relevancy_threshold of None \<Rightarrow> True | Some t \<Rightarrow> normalized ! row \<ge> t)"

text \<open>\<open>Document(page_content=indx['documents'][row-1], metadata=indx['metadatas'][row-1])\<close>.\<close>

definition row_document :: "'m store \<Rightarrow> nat \<Rightarrow> py_error + 'm Document" where
  "row_document indx row =
     (case py_index (documents indx) (int row - 1) of Inl e \<Rightarrow> Inl e | Inr c \<Rightarrow>
      case py_index (metadatas indx) (int row - 1) of Inl e \<Rightarrow> Inl e | Inr m \<Rightarrow>
        Inr \<lparr>page_content = c, metadata = m\<rparr>)"

text \<open>The loop of lines 72 to 78 over the rows still to visit.\<close>

fun svm_select ::
  "'m store \<Rightarrow> real option \<Rightarrow> real list \<Rightarrow> nat list \<Rightarrow> 'm Document list \<Rightarrow>
   py_error + 'm Document list" where
  "svm_select indx relevancy_threshold normalized [] top_k_results = Inr top_k_results"
| "svm_select indx relevancy_threshold normalized (row # rows) top_k_results =
     (case passes_threshold relevancy_threshold normalized row of
        Inl e \<Rightarrow> Inl e
      | Inr False \<Rightarrow> svm_select indx relevancy_threshold normalized rows top_k_results
      | Inr True \<Rightarrow>
          (case row_document indx row of
             Inl e \<Rightarrow> Inl e
           | Inr d \<Rightarrow> svm_select indx relevancy_threshold normalized rows (top_k_results @ [d])))"

text \<open>
  \<open>_get_relevant_doc_svm(db, embeddings, query, k, relevancy_threshold)\<close>. External, and
  so parameters: \<open>embed_query\<close> (the embedding service), \<open>svm_scores x y\<close> (fitting
  sklearn's \<open>LinearSVC\<close> on \<open>x, y\<close> and taking \<open>decision_function(x)\<close>), and \<open>argsort\<close>
  (\<open>np.argsort\<close>, whose order among equal keys numpy leaves open). \<open>indx\<close> is what
  \<open>db.get\<close> returned.
\<close>

definition get_relevant_doc_svm ::
  "(string \<Rightarrow> py_error + real list) \<Rightarrow> (real list list \<Rightarrow> real list \<Rightarrow> py_error + real list) \<Rightarrow>
   (real list \<Rightarrow> nat list) \<Rightarrow> 'm store \<Rightarrow> string \<Rightarrow> int \<Rightarrow> real option \<Rightarrow>
   py_error + 'm Document list" where
  "get_relevant_doc_svm embed_query svm_scores argsort indx query k relevancy_threshold =
     (case embed_query query of Inl e \<Rightarrow> Inl e | Inr query_embeds \<Rightarrow>
      case np_concatenate_rows query_embeds (embeddings indx) of Inl e \<Rightarrow> Inl e | Inr x \<Rightarrow>
      case svm_scores x ((replicate (length x) 0)[0 := 1]) of Inl e \<Rightarrow> Inl e
      | Inr similarities \<Rightarrow>
      case swap_query_first (argsort (map uminus similarities)) of Inl e \<Rightarrow> Inl e
      | Inr sorted_ix \<Rightarrow>
      case normalize_similarities similarities of Inl e \<Rightarrow> Inl e | Inr normalized \<Rightarrow>
        svm_select indx relevancy_threshold normalized (py_slice sorted_ix 1 (k + 1)) [])"

section \<open>The lexical retriever (search.py, \<open>_get_relevant_doc_tfidf\<close>)\<close>

text \<open>The loop of lines 22 to 24: one \<open>Document\<close> per stored text, with the metadata
  at the same index (\<open>IndexError\<close> when the metadata list is shorter).\<close>

fun tfidf_docs_list ::
  "string list \<Rightarrow> 'm list \<Rightarrow> nat list \<Rightarrow> 'm Document list \<Rightarrow> py_error + 'm Document list" where
  "tfidf_docs_list ds ms [] docs_list = Inr docs_list"
| "tfidf_docs_list ds ms (i # rest) docs_list =
     (if i < length ms
      then tfidf_docs_list ds ms rest (docs_list @ [\<lparr>page_content = ds ! i, metadata = ms ! i\<rparr>])
      else Inl IndexError)"

text \<open>
  \<open>_get_relevant_doc_tfidf(db, query, k)\<close>. langchain's \<open>TFIDFRetriever\<close> is external:
  \<open>tfidf_retriever docs_list k query\<close> stands for
  \<^verbatim>\<open>TFIDFRetriever.from_documents(docs_list, search_kwargs={"k":k}).get_relevant_documents(query)\<close>.
  The function itself builds the documents and cuts the answer with \<open>result[:k]\<close>.
\<close>

definition get_relevant_doc_tfidf ::
  "('m Document list \<Rightarrow> int \<Rightarrow> string \<Rightarrow> py_error + 'm Document list) \<Rightarrow>
   'm store \<Rightarrow> string \<Rightarrow> int \<Rightarrow> py_error + 'm Document list" where
  "get_relevant_doc_tfidf tfidf_retriever all_docs query k =
     (case tfidf_docs_list (documents all_docs) (metadatas all_docs)
             [0..<length (documents all_docs)] [] of
        Inl e \<Rightarrow> Inl e
      | Inr docs_list \<Rightarrow>
          (case tfidf_retriever docs_list k query of
             Inl e \<Rightarrow> Inl e
           | Inr result \<Rightarrow> Inr (py_slice result 0 k)))"

text \<open>
  The retriever that line 25 builds is langchain's \<open>TFIDFRetriever\<close>, a class of the
  library. Its result size is its own field \<open>k\<close>, which is 4 unless the constructor is
  given \<open>k\<close>; \<open>from_documents\<close> hands the keyword \<open>search_kwargs\<close> of line 25 to the
  constructor, which has no such field and drops it, so the size stays 4 whatever
  \<open>search_kwargs\<close> holds. \<open>get_relevant_documents\<close> computes one similarity per
  document and returns
  \<^verbatim>\<open>[self.docs[i] for i in results.argsort()[-self.k:][::-1]]\<close>.
  The vectorizer and the cosine similarity are the parameter \<open>tfidf_scores\<close> (it raises
  what the vectorizer raises, as for a corpus without any term), and \<open>argsort\<close> is
  \<open>np.argsort\<close>.
\<close>

fun docs_at :: "'a list \<Rightarrow> nat list \<Rightarrow> py_error + 'a list" where
  "docs_at docs [] = Inr []"
| "docs_at docs (i # rest) =
     (if i < length docs
      then (case docs_at docs rest of Inl e \<Rightarrow> Inl e | Inr found \<Rightarrow> Inr (docs ! i # found))
      else Inl IndexError)"

definition langchain_tfidf_retriever ::
  "('m Document list \<Rightarrow> string \<Rightarrow> py_error + real list) \<Rightarrow> (real list \<Rightarrow> nat list) \<Rightarrow>
   'm Document list \<Rightarrow> int \<Rightarrow> string \<Rightarrow> py_error + 'm Document list" where
  "langchain_tfidf_retriever tfidf_scores argsort docs_list search_kwargs_k query =
     (case tfidf_scores docs_list query of
        Inl e \<Rightarrow> Inl e
      | Inr results \<Rightarrow>
          docs_at docs_list
            (rev (py_slice (argsort results) (- 4) (int (length (argsort results))))))"

section \<open>The geometric retriever and the dispatch (search.py, \<open>get_docs\<close>)\<close>

text \<open>
  \<open>_get_relevant_doc_mmr\<close> only forwards to the vector store's own search, which is the
  parameter \<open>mmr_search indx query k threshold\<close>.
\<close>

definition get_relevant_doc_mmr ::
  "('m store \<Rightarrow> string \<Rightarrow> int \<Rightarrow> real option \<Rightarrow> py_error + 'm Document list) \<Rightarrow>
   'm store \<Rightarrow> string \<Rightarrow> int \<Rightarrow> real option \<Rightarrow> py_error + 'm Document list" where
  "get_relevant_doc_mmr mmr_search db query k relevancy_threshold =
     mmr_search db query k relevancy_threshold"

text \<open>
  \<open>get_docs\<close>: the value is an exception, \<open>None\<close> or the merged list, together with the log
  and output after the call. The retrievers are called in the order of the source and
  the first exception ends the call, before anything is written.
\<close>

text \<open>\<open>docs = _merge_docs(...)\<close> followed by \<open>return docs\<close>, shared by the four branches.\<close>

definition merged ::
  "(string \<Rightarrow> string list) \<Rightarrow> 'm Document list list \<Rightarrow> int \<Rightarrow> string \<Rightarrow> bool \<Rightarrow> io \<Rightarrow>
   (py_error + 'm Document list option) \<times> io" where
  "merged jieba_cut docs_list topK language verbose s =
     (case merge_docs jieba_cut docs_list topK language verbose s of
        (docs, s') \<Rightarrow> (Inr (Some docs), s'))"

definition get_docs ::
  "('m store \<Rightarrow> string \<Rightarrow> int \<Rightarrow> real option \<Rightarrow> py_error + 'm Document list) \<Rightarrow>
   (string \<Rightarrow> py_error + real list) \<Rightarrow> (real list list \<Rightarrow> real list \<Rightarrow> py_error + real list) \<Rightarrow>
   (real list \<Rightarrow> nat list) \<Rightarrow>
   ('m Document list \<Rightarrow> int \<Rightarrow> string \<Rightarrow> py_error + 'm Document list) \<Rightarrow>
   (string \<Rightarrow> string list) \<Rightarrow>
   'm store \<Rightarrow> string \<Rightarrow> int \<Rightarrow> real option \<Rightarrow> string \<Rightarrow> string \<Rightarrow> bool \<Rightarrow> io \<Rightarrow>
   (py_error + 'm Document list option) \<times> io" where
  "get_docs mmr_search embed_query svm_scores argsort tfidf_retriever jieba_cut
            db query topK threshold language search_type verbose s =
     (if search_type = ''merge'' then
        (case get_relevant_doc_mmr mmr_search db query topK threshold of
           Inl e \<Rightarrow> (Inl e, s)
         | Inr docs_mmr \<Rightarrow>
        (case get_relevant_doc_svm embed_query svm_scores argsort db query topK threshold of
           Inl e \<Rightarrow> (Inl e, s)
         | Inr docs_svm \<Rightarrow>
        (case get_relevant_doc_tfidf tfidf_retriever db query topK of
           Inl e \<Rightarrow> (Inl e, s)
         | Inr docs_tfidf \<Rightarrow>
             merged jieba_cut [docs_mmr, docs_svm, docs_tfidf] topK language verbose s)))
      else if search_type = ''mmr'' then
        (case get_relevant_doc_mmr mmr_search db query topK threshold of
           Inl e \<Rightarrow> (Inl e, s)
         | Inr docs_mmr \<Rightarrow> merged jieba_cut [docs_mmr] topK language verbose s)
      else if search_type = ''svm'' then
        (case get_relevant_doc_svm embed_query svm_scores argsort db query topK threshold of
           Inl e \<Rightarrow> (Inl e, s)
         | Inr docs_svm \<Rightarrow> merged jieba_cut [docs_svm] topK language verbose s)
      else if search_type = ''tfidf'' then
        (case get_relevant_doc_tfidf tfidf_retriever db query topK of
           Inl e \<Rightarrow> (Inl e, s)
         | Inr docs_tfidf \<Rightarrow> merged jieba_cut [docs_tfidf] topK language verbose s)
      else
        (let info = ''cannot find search type '' @ search_type @ '', end process'' @ [CHR 0x0A]
         in (Inr None, s\<lparr>logs := logs s @ [info], stdout := stdout s @ info @ [CHR 0x0A]\<rparr>)))"

section \<open>Example inputs\<close>

text \<open>
  The concrete inputs of the examples below. A passage of \<open>n\<close> one-letter words, each
  followed by a space, with the name of its source as metadata; and a segmenter that
  makes every character a segment.
\<close>

definition passage :: "string \<Rightarrow> nat \<Rightarrow> string Document" where
  "passage source n = \<lparr>page_content = concat (replicate n ''w ''), metadata = source\<rparr>"

definition char_cut :: "string \<Rightarrow> string list" where
  "char_cut text = map (\<lambda>c. [c]) text"

text \<open>
  Stand-ins for the external collaborators: an embedding service that maps every query to
  \<open>(1, 0)\<close>; a scorer that returns the first coordinate of every row; an argsort that
  keeps equal keys in their order; a geometric search that finds nothing; and a lexical
  scorer that gives a document, when the query is one of its words, the inverse of its
  number of words, and 0 otherwise.
\<close>

definition unit_embed_query :: "string \<Rightarrow> py_error + real list" where
  "unit_embed_query text = Inr [1, 0]"

definition first_coordinate_scores :: "real list list \<Rightarrow> real list \<Rightarrow> py_error + real list" where
  "first_coordinate_scores x y = Inr (map (\<lambda>row. case row of [] \<Rightarrow> 0 | a # _ \<Rightarrow> a) x)"

definition stable_argsort :: "real list \<Rightarrow> nat list" where
  "stable_argsort v = sort_key (\<lambda>i. v ! i) [0..<length v]"

definition empty_mmr_search ::
  "'m store \<Rightarrow> string \<Rightarrow> int \<Rightarrow> real option \<Rightarrow> py_error + 'm Document list" where
  "empty_mmr_search db query k threshold = Inr []"

definition query_share_scores :: "'m Document list \<Rightarrow> string \<Rightarrow> py_error + real list" where
  "query_share_scores docs_list query =
     Inr (map (\<lambda>d. if query \<in> set (py_split (page_content d))
                     then 1 / real (length (py_split (page_content d))) else 0) docs_list)"

text \<open>A store of three passages; the second one scores above the query itself under
  \<open>first_coordinate_scores\<close>. And a store of six passages about fruit; for the query
  \<open>apple\<close> the first four are the best, in this order, and the last two score 0.\<close>

definition small_store :: "string store" where
  "small_store =
     \<lparr>documents = [''w w '', ''w w w '', ''w ''], metadatas = [''a'', ''b'', ''c''],
      embeddings = [[1 / 2, 0], [2, 0], [1 / 10, 0]]\<rparr>"

definition fruit_store :: "string store" where
  "fruit_store =
     \<lparr>documents = [''apple'', ''apple banana'', ''apple banana cherry'',
                   ''apple banana cherry durian'', ''banana cherry'', ''cherry durian''],
      metadatas = [''a'', ''b'', ''c'', ''d'', ''e'', ''f''],
      embeddings = [[1, 0], [1, 0], [1, 0], [1, 0], [1, 0], [1, 0]]\<rparr>"

section \<open>Properties of the merge operation\<close>

lemma merge_body_eq:
  "merge_body jieba_cut language verbose s i docs (res, cur_count) =
     (if i \<ge> length docs \<or> docs ! i \<in> set res then Continue (res, cur_count)
      else if cur_count + words_len jieba_cut language (docs ! i) > budget language
      then Return (res, log_words_length verbose cur_count s)
      else Continue (res @ [docs ! i], cur_count + words_len jieba_cut language (docs ! i)))"
  by (simp add: merge_body_def words_len_def budget_def Let_def)

lemma merge_inv_init: "merge_inv jieba_cut language ([], 0)"
  by (simp add: merge_inv_def total_words_def budget_def)

lemma merge_body_Continue:
  assumes "merge_body jieba_cut language verbose s i docs st = Continue st'"
    and "merge_inv jieba_cut language st"
  shows "merge_inv jieba_cut language st' \<and> length (fst st') \<le> Suc (length (fst st))"
  using assms
  by (cases st) (auto simp: merge_body_eq merge_inv_def total_words_def split: if_splits)

lemma merge_body_Return:
  assumes "merge_body jieba_cut language verbose s i docs st = Return r"
  shows "r = (fst st, log_words_length verbose (snd st) s)"
  using assms by (cases st) (auto simp: merge_body_eq split: if_splits)

lemma merge_round_Continue:
  assumes "merge_round jieba_cut language verbose s i docs_list st = Continue st'"
    and "merge_inv jieba_cut language st"
  shows "merge_inv jieba_cut language st' \<and>
         length (fst st') \<le> length (fst st) + length docs_list"
  using assms
proof (induction docs_list arbitrary: st)
  case Nil
  then show ?case by simp
next
  case (Cons docs rest)
  from Cons.prems(1) obtain st1 where
    b: "merge_body jieba_cut language verbose s i docs st = Continue st1" and
    r: "merge_round jieba_cut language verbose s i rest st1 = Continue st'"
    by (auto split: flow.splits)
  from merge_body_Continue[OF b Cons.prems(2)] have
    i1: "merge_inv jieba_cut language st1" and l1: "length (fst st1) \<le> Suc (length (fst st))"
    by simp_all
  from Cons.IH[OF r i1] l1 show ?case by simp
qed

lemma merge_round_Return:
  assumes "merge_round jieba_cut language verbose s i docs_list st = Return r"
    and "merge_inv jieba_cut language st"
  shows "\<exists>st'. merge_inv jieba_cut language st' \<and>
           r = (fst st', log_words_length verbose (snd st') s) \<and>
           length (fst st') \<le> length (fst st) + length docs_list"
  using assms
proof (induction docs_list arbitrary: st)
  case Nil
  then show ?case by simp
next
  case (Cons docs rest)
  show ?case
  proof (cases "merge_body jieba_cut language verbose s i docs st")
    case (Continue st1)
    with Cons.prems(1) have
      r: "merge_round jieba_cut language verbose s i rest st1 = Return r" by simp
    from merge_body_Continue[OF Continue Cons.prems(2)] have
      i1: "merge_inv jieba_cut language st1" and
      l1: "length (fst st1) \<le> Suc (length (fst st))" by simp_all
    from Cons.IH[OF r i1] obtain st' where
      "merge_inv jieba_cut language st'"
      "r = (fst st', log_words_length verbose (snd st') s)"
      "length (fst st') \<le> length (fst st1) + length rest"
      by blast
    with l1 show ?thesis by (intro exI[of _ st']) simp
  next
    case (Return r')
    with Cons.prems(1) have "r' = r" by simp
    with merge_body_Return[OF Return] Cons.prems(2) show ?thesis
      by (intro exI[of _ st]) simp
  qed
qed

lemma merge_rounds_Continue:
  assumes "merge_rounds jieba_cut language verbose s docs_list rounds st = Continue st'"
    and "merge_inv jieba_cut language st"
  shows "merge_inv jieba_cut language st' \<and>
         length (fst st') \<le> length (fst st) + length rounds * length docs_list"
  using assms
proof (induction rounds arbitrary: st)
  case Nil
  then show ?case by simp
next
  case (Cons i later)
  from Cons.prems(1) obtain st1 where
    a: "merge_round jieba_cut language verbose s i docs_list st = Continue st1" and
    r: "merge_rounds jieba_cut language verbose s docs_list later st1 = Continue st'"
    by (auto split: flow.splits)
  from merge_round_Continue[OF a Cons.prems(2)] have
    i1: "merge_inv jieba_cut language st1" and
    l1: "length (fst st1) \<le> length (fst st) + length docs_list"
    by simp_all
  from Cons.IH[OF r i1] l1 show ?case by simp
qed

lemma merge_rounds_Return:
  assumes "merge_rounds jieba_cut language verbose s docs_list rounds st = Return r"
    and "merge_inv jieba_cut language st"
  shows "\<exists>st'. merge_inv jieba_cut language st' \<and>
           r = (fst st', log_words_length verbose (snd st') s) \<and>
           length (fst st') \<le> length (fst st) + length rounds * length docs_list"
  using assms
proof (induction rounds arbitrary: st)
  case Nil
  then show ?case by simp
next
  case (Cons i later)
  show ?case
  proof (cases "merge_round jieba_cut language verbose s i docs_list st")
    case (Continue st1)
    with Cons.prems(1) have
      r: "merge_rounds jieba_cut language verbose s docs_list later st1 = Return r" by simp
    from merge_round_Continue[OF Continue Cons.prems(2)] have
      i1: "merge_inv jieba_cut language st1" and
      l1: "length (fst st1) \<le> length (fst st) + length docs_list"
      by simp_all
    from Cons.IH[OF r i1] obtain st' where
      "merge_inv jieba_cut language st'"
      "r = (fst st', log_words_length verbose (snd st') s)"
      "length (fst st') \<le> length (fst st1) + length later * length docs_list"
      by blast
    with l1 show ?thesis by (intro exI[of _ st']) simp
  next
    case (Return r')
    with Cons.prems(1) have "r' = r" by simp
    with merge_round_Return[OF Return Cons.prems(2)] obtain st' where
      "merge_inv jieba_cut language st'"
      "r = (fst st', log_words_length verbose (snd st') s)"
      "length (fst st') \<le> length (fst st) + length docs_list"
      by blast
    then show ?thesis by (intro exI[of _ st']) simp
  qed
qed

lemma merge_round_append:
  "merge_round jieba_cut language verbose s i (xs @ ys) st =
     (case merge_round jieba_cut language verbose s i xs st of
        Return r \<Rightarrow> Return r
      | Continue st' \<Rightarrow> merge_round jieba_cut language verbose s i ys st')"
  by (induction xs arbitrary: st) (auto split: flow.splits)

lemma merge_rounds_append:
  "merge_rounds jieba_cut language verbose s docs_list (xs @ ys) st =
     (case merge_rounds jieba_cut language verbose s docs_list xs st of
        Return r \<Rightarrow> Return r
      | Continue st' \<Rightarrow> merge_rounds jieba_cut language verbose s docs_list ys st')"
  by (induction xs arbitrary: st) (auto split: flow.splits)

text \<open>Every path of the merge ends in a state that satisfies the invariant, and logs
  the counter of that state.\<close>

lemma merge_docs_char:
  "\<exists>st'. merge_inv jieba_cut language st' \<and>
      merge_docs jieba_cut docs_list topK language verbose s =
        (fst st', log_words_length verbose (snd st') s) \<and>
      length (fst st') \<le> nat topK * length docs_list"
proof (cases "merge_rounds jieba_cut language verbose s docs_list [0..<nat topK] ([], 0)")
  case (Continue st')
  from merge_rounds_Continue[OF Continue merge_inv_init]
  show ?thesis using Continue
    by (intro exI[of _ st']) (simp add: merge_docs_def split: prod.splits)
next
  case (Return r)
  from merge_rounds_Return[OF Return merge_inv_init] obtain st' where
    "merge_inv jieba_cut language st'" "r = (fst st', log_words_length verbose (snd st') s)"
    "length (fst st') \<le>
       length (fst (([]::'a Document list), 0::nat)) + length [0..<nat topK] * length docs_list"
    by blast
  then show ?thesis using Return
    by (intro exI[of _ st']) (simp add: merge_docs_def)
qed

text \<open>The stop: when, in round \<open>i\<close>, the lists before \<open>docs\<close> have been passed and the
  candidate of \<open>docs\<close> does not fit, the call returns the list built so far.\<close>

lemma merge_docs_overflow:
  assumes i: "i < nat topK"
    and before: "merge_rounds jieba_cut language verbose s (pre @ docs # post) [0..<i] ([], 0)
                   = Continue st0"
    and same: "merge_round jieba_cut language verbose s i pre st0 = Continue (res, cur)"
    and cand: "i < length docs" "docs ! i \<notin> set res"
    and over: "cur + words_len jieba_cut language (docs ! i) > budget language"
  shows "merge_docs jieba_cut (pre @ docs # post) topK language verbose s =
           (res, log_words_length verbose cur s)"
proof -
  have b: "merge_body jieba_cut language verbose s i docs (res, cur) =
             Return (res, log_words_length verbose cur s)"
    using cand over by (simp add: merge_body_eq)
  have r: "merge_round jieba_cut language verbose s i (pre @ docs # post) st0 =
             Return (res, log_words_length verbose cur s)"
    by (simp add: merge_round_append same b)
  have u: "[0..<nat topK] = [0..<i] @ i # [Suc i..<nat topK]"
  proof -
    have "[0..<nat topK] = [0..<i] @ [i..<nat topK]"
      using i upt_add_eq_append[of 0 i "nat topK - i"] by simp
    moreover have "[i..<nat topK] = i # [Suc i..<nat topK]"
      using i by (simp add: upt_conv_Cons)
    ultimately show ?thesis by simp
  qed
  show ?thesis
    unfolding merge_docs_def u by (simp add: merge_rounds_append before r)
qed

subsection \<open>Word counts of the example passages\<close>

lemma split_ws_word:
  "\<not> py_isspace c \<Longrightarrow> split_ws (c # CHR '' '' # rest) [] = [c] # split_ws rest []"
  by (simp add: py_isspace_def)

lemma py_split_words:
  "\<not> py_isspace c \<Longrightarrow> length (py_split (concat (replicate n [c, CHR '' '']))) = n"
  unfolding py_split_def
  by (induction n) (simp_all add: split_ws_word del: split_ws.simps(2))

lemma words_len_passage:
  "language \<noteq> ''ch'' \<Longrightarrow> words_len jieba_cut language (passage source n) = n"
  by (simp add: words_len_def passage_def py_split_words py_isspace_def)

lemma length_concat_replicate_pair: "length (concat (replicate n [a, b])) = 2 * n"
  by (induction n) simp_all

lemma words_len_passage_ch: "words_len char_cut ''ch'' (passage source n) = 2 * n"
  by (simp add: words_len_def passage_def char_cut_def length_concat_replicate_pair)

lemma passage_neq: "a \<noteq> b \<Longrightarrow> passage a n \<noteq> passage b m"
  by (simp add: passage_def)

text \<open>The returned list does not depend on the log and output handed in.\<close>

lemma merge_body_io:
  "(\<exists>st'. merge_body jieba_cut language verbose s i docs st = Continue st' \<and>
          merge_body jieba_cut language verbose s' i docs st = Continue st') \<or>
   (\<exists>r r'. merge_body jieba_cut language verbose s i docs st = Return r \<and>
          merge_body jieba_cut language verbose s' i docs st = Return r' \<and> fst r = fst r')"
  by (cases st) (simp add: merge_body_eq)

lemma merge_round_io:
  "(\<exists>st'. merge_round jieba_cut language verbose s i docs_list st = Continue st' \<and>
          merge_round jieba_cut language verbose s' i docs_list st = Continue st') \<or>
   (\<exists>r r'. merge_round jieba_cut language verbose s i docs_list st = Return r \<and>
          merge_round jieba_cut language verbose s' i docs_list st = Return r' \<and> fst r = fst r')"
proof (induction docs_list arbitrary: st)
  case Nil
  then show ?case by simp
next
  case (Cons docs rest)
  from merge_body_io[of jieba_cut language verbose s i docs st s'] show ?case
  proof (elim disjE exE conjE)
    fix st1
    assume "merge_body jieba_cut language verbose s i docs st = Continue st1"
      "merge_body jieba_cut language verbose s' i docs st = Continue st1"
    with Cons.IH[of st1] show ?thesis by simp
  next
    fix r r'
    assume "merge_body jieba_cut language verbose s i docs st = Return r"
      "merge_body jieba_cut language verbose s' i docs st = Return r'" "fst r = fst r'"
    then show ?thesis by simp
  qed
qed

lemma merge_rounds_io:
  "(\<exists>st'. merge_rounds jieba_cut language verbose s docs_list rounds st = Continue st' \<and>
          merge_rounds jieba_cut language verbose s' docs_list rounds st = Continue st') \<or>
   (\<exists>r r'. merge_rounds jieba_cut language verbose s docs_list rounds st = Return r \<and>
          merge_rounds jieba_cut language verbose s' docs_list rounds st = Return r' \<and>
          fst r = fst r')"
proof (induction rounds arbitrary: st)
  case Nil
  then show ?case by simp
next
  case (Cons i later)
  from merge_round_io[of jieba_cut language verbose s i docs_list st s'] show ?case
  proof (elim disjE exE conjE)
    fix st1
    assume "merge_round jieba_cut language verbose s i docs_list st = Continue st1"
      "merge_round jieba_cut language verbose s' i docs_list st = Continue st1"
    with Cons.IH[of st1] show ?thesis by simp
  next
    fix r r'
    assume "merge_round jieba_cut language verbose s i docs_list st = Return r"
      "merge_round jieba_cut language verbose s' i docs_list st = Return r'" "fst r = fst r'"
    then show ?thesis by simp
  qed
qed

lemma merge_docs_io:
  "fst (merge_docs jieba_cut docs_list topK language verbose s') =
   fst (merge_docs jieba_cut docs_list topK language verbose s)"
  using merge_rounds_io[of jieba_cut language verbose s docs_list "[0..<nat topK]" "([], 0)" s']
  by (auto simp: merge_docs_def split: prod.splits)

subsection \<open>The budget\<close>

text \<open>
  C1. Whatever the ranked lists, \<open>topK\<close>, the language, the segmenter and the log are, the
  estimated word count of the list that \<open>_merge_docs\<close> returns (segment count for
  \<open>'ch'\<close>, whitespace-split count otherwise) is at most the budget of the language
  (1800 for \<open>'ch'\<close>, 3000 otherwise). And the candidate that does not fit is not in the
  result: when round \<open>i\<close> has passed the lists \<open>pre\<close> and reaches, with the list \<open>res\<close>
  and the count \<open>cur\<close>, a candidate \<open>docs ! i\<close> that is new and would take the count over
  the budget, that candidate is not in the returned list.
\<close>

theorem merge_docs_within_budget:
  "total_words jieba_cut language (fst (merge_docs jieba_cut docs_list topK language verbose s))
     \<le> budget language \<and>
   (docs_list = pre @ docs # post \<and> i < nat topK \<and>
    merge_rounds jieba_cut language verbose s docs_list [0..<i] ([], 0) = Continue st0 \<and>
    merge_round jieba_cut language verbose s i pre st0 = Continue (res, cur) \<and>
    i < length docs \<and> docs ! i \<notin> set res \<and>
    cur + words_len jieba_cut language (docs ! i) > budget language
    \<longrightarrow> docs ! i \<notin> set (fst (merge_docs jieba_cut docs_list topK language verbose s)))"
proof
  from merge_docs_char[of jieba_cut language docs_list topK verbose s]
  show "total_words jieba_cut language
          (fst (merge_docs jieba_cut docs_list topK language verbose s)) \<le> budget language"
    by (auto simp: merge_inv_def)
next
  show "docs_list = pre @ docs # post \<and> i < nat topK \<and>
    merge_rounds jieba_cut language verbose s docs_list [0..<i] ([], 0) = Continue st0 \<and>
    merge_round jieba_cut language verbose s i pre st0 = Continue (res, cur) \<and>
    i < length docs \<and> docs ! i \<notin> set res \<and>
    cur + words_len jieba_cut language (docs ! i) > budget language
    \<longrightarrow> docs ! i \<notin> set (fst (merge_docs jieba_cut docs_list topK language verbose s))"
    using merge_docs_overflow[of i topK jieba_cut language verbose s pre docs post st0 res cur]
    by auto
qed

text \<open>Two passages of 1000 segments each under \<open>'ch'\<close>: the second one does not fit.\<close>

theorem merge_docs_within_budget_witness:
  "[[passage ''a'' 500, passage ''b'' 500]] = [] @ [passage ''a'' 500, passage ''b'' 500] # [] \<and>
   (1::nat) < nat 2 \<and>
   merge_rounds char_cut ''ch'' False \<lparr>logs = [], stdout = []\<rparr>
      [[passage ''a'' 500, passage ''b'' 500]] [0..<1] ([], 0)
     = Continue ([passage ''a'' 500], 1000) \<and>
   merge_round char_cut ''ch'' False \<lparr>logs = [], stdout = []\<rparr> 1 [] ([passage ''a'' 500], 1000)
     = Continue ([passage ''a'' 500], 1000) \<and>
   1 < length [passage ''a'' 500, passage ''b'' 500] \<and>
   [passage ''a'' 500, passage ''b'' 500] ! 1 \<notin> set [passage ''a'' 500] \<and>
   1000 + words_len char_cut ''ch'' ([passage ''a'' 500, passage ''b'' 500] ! 1) > budget ''ch'' \<and>
   total_words char_cut ''ch''
     (fst (merge_docs char_cut [[passage ''a'' 500, passage ''b'' 500]] 2 ''ch'' False
        \<lparr>logs = [], stdout = []\<rparr>)) \<le> budget ''ch'' \<and>
   [passage ''a'' 500, passage ''b'' 500] ! 1 \<notin>
     set (fst (merge_docs char_cut [[passage ''a'' 500, passage ''b'' 500]] 2 ''ch'' False
        \<lparr>logs = [], stdout = []\<rparr>))"
  using merge_docs_within_budget[where jieba_cut = char_cut and language = "''ch''"
      and docs_list = "[[passage ''a'' 500, passage ''b'' 500]]" and topK = 2 and verbose = False
      and s = "\<lparr>logs = [], stdout = []\<rparr>" and i = 1 and pre = "[]"
      and docs = "[passage ''a'' 500, passage ''b'' 500]" and post = "[]"
      and ?st0.0 = "([passage ''a'' 500], 1000)" and res = "[passage ''a'' 500]" and cur = 1000]
  by (simp add: merge_body_eq words_len_passage_ch budget_def passage_neq)

subsection \<open>A single ranked list\<close>

text \<open>
  C2. When one ranked list is merged (what every strategy but the combined one does) and
  \<open>topK > 0\<close>, the result has at most \<open>topK\<close> passages and no passage twice, passages
  being compared by content and metadata.
\<close>

theorem merge_single_list_topK_distinct:
  assumes "0 < topK"
  shows "int (length (fst (merge_docs jieba_cut [docs] topK language verbose s))) \<le> topK \<and>
         distinct (fst (merge_docs jieba_cut [docs] topK language verbose s))"
proof -
  from merge_docs_char[of jieba_cut language "[docs]" topK verbose s] obtain st' where
    "merge_inv jieba_cut language st'"
    "merge_docs jieba_cut [docs] topK language verbose s
       = (fst st', log_words_length verbose (snd st') s)"
    "length (fst st') \<le> nat topK * length [docs]"
    by blast
  with assms show ?thesis by (simp add: merge_inv_def)
qed

text \<open>A list that holds the same passage twice, \<open>topK = 2\<close>: the passage is returned once.\<close>

theorem merge_single_list_topK_distinct_witness:
  "(0::int) < 2 \<and>
   fst (merge_docs char_cut [[passage ''a'' 3, passage ''a'' 3, passage ''b'' 4]] 2 ''en'' True
          \<lparr>logs = [], stdout = []\<rparr>) = [passage ''a'' 3] \<and>
   int (length (fst (merge_docs char_cut [[passage ''a'' 3, passage ''a'' 3, passage ''b'' 4]] 2
          ''en'' True \<lparr>logs = [], stdout = []\<rparr>))) \<le> 2 \<and>
   distinct (fst (merge_docs char_cut [[passage ''a'' 3, passage ''a'' 3, passage ''b'' 4]] 2
          ''en'' True \<lparr>logs = [], stdout = []\<rparr>))"
  using merge_single_list_topK_distinct[of 2 char_cut
      "[passage ''a'' 3, passage ''a'' 3, passage ''b'' 4]" "''en''" True
      "\<lparr>logs = [], stdout = []\<rparr>"]
  by (simp add: merge_docs_def upt_rec merge_body_eq words_len_passage budget_def)

subsection \<open>The stop in the middle of a round\<close>

text \<open>
  C8. The merge stops inside the inner loop. Suppose the rounds before round \<open>i\<close> have
  run to their end, round \<open>i\<close> has passed the lists \<open>pre\<close> and holds the list \<open>res\<close> with
  the count \<open>cur\<close>, and the candidate of the next list \<open>docs\<close> is new and would take the
  count over the budget. Then the call returns \<open>res\<close> as it is, with \<open>cur\<close> logged: nothing
  of the lists \<open>post\<close> that follow in the round, and nothing of a later round, is appended,
  whatever those lists hold, also a candidate that would have fitted.
\<close>

theorem merge_stops_mid_round:
  assumes "i < nat topK"
    and "merge_rounds jieba_cut language verbose s (pre @ docs # post) [0..<i] ([], 0)
           = Continue st0"
    and "merge_round jieba_cut language verbose s i pre st0 = Continue (res, cur)"
    and "i < length docs" and "docs ! i \<notin> set res"
    and "cur + words_len jieba_cut language (docs ! i) > budget language"
  shows "merge_docs jieba_cut (pre @ docs # post) topK language verbose s =
           (res, log_words_length verbose cur s)"
  using assms by (rule merge_docs_overflow)

text \<open>Two lists, \<open>topK = 2\<close>: in the second round the first list's passage of 2000 words
  does not fit after 2001 words; the second list's passage of one word, which would fit,
  is not reached.\<close>

theorem merge_stops_mid_round_witness:
  "(1::nat) < nat 2 \<and>
   merge_rounds char_cut ''en'' False \<lparr>logs = [], stdout = []\<rparr>
       ([] @ [passage ''a'' 2000, passage ''c'' 2000] # [[passage ''b'' 1, passage ''d'' 1]])
       [0..<1] ([], 0)
     = Continue ([passage ''a'' 2000, passage ''b'' 1], 2001) \<and>
   merge_round char_cut ''en'' False \<lparr>logs = [], stdout = []\<rparr> 1 []
       ([passage ''a'' 2000, passage ''b'' 1], 2001)
     = Continue ([passage ''a'' 2000, passage ''b'' 1], 2001) \<and>
   1 < length [passage ''a'' 2000, passage ''c'' 2000] \<and>
   [passage ''a'' 2000, passage ''c'' 2000] ! 1 \<notin> set [passage ''a'' 2000, passage ''b'' 1] \<and>
   2001 + words_len char_cut ''en'' ([passage ''a'' 2000, passage ''c'' 2000] ! 1) > budget ''en'' \<and>
   2001 + words_len char_cut ''en'' (passage ''d'' 1) \<le> budget ''en'' \<and>
   merge_docs char_cut
       ([] @ [passage ''a'' 2000, passage ''c'' 2000] # [[passage ''b'' 1, passage ''d'' 1]])
       2 ''en'' False \<lparr>logs = [], stdout = []\<rparr>
     = ([passage ''a'' 2000, passage ''b'' 1],
        \<lparr>logs = [''words length: 2001''], stdout = []\<rparr>)"
  using merge_stops_mid_round[of 1 2 char_cut "''en''" False "\<lparr>logs = [], stdout = []\<rparr>" "[]"
      "[passage ''a'' 2000, passage ''c'' 2000]" "[[passage ''b'' 1, passage ''d'' 1]]"
      "([passage ''a'' 2000, passage ''b'' 1], 2001)" "[passage ''a'' 2000, passage ''b'' 1]" 2001]
  by (simp add: merge_body_eq words_len_passage budget_def passage_neq log_words_length_def
      str_nat.simps digit_char_def)

subsection \<open>The log\<close>

text \<open>
  C10. Every call of \<open>_merge_docs\<close>, on either way out, leaves the log as it was with one
  entry added at its end: \<open>"words length: "\<close> followed by the count at the end of the
  call, which is the estimate of the returned list. The entries already there are kept
  in place, and they are not read: the returned list is the same whatever log (and
  output) the call is given.
\<close>

theorem merge_docs_log_frame:
  "logs (snd (merge_docs jieba_cut docs_list topK language verbose s)) =
     logs s @ [''words length: '' @
       str_nat (total_words jieba_cut language
                  (fst (merge_docs jieba_cut docs_list topK language verbose s)))] \<and>
   fst (merge_docs jieba_cut docs_list topK language verbose s') =
     fst (merge_docs jieba_cut docs_list topK language verbose s)"
proof
  from merge_docs_char[of jieba_cut language docs_list topK verbose s]
  show "logs (snd (merge_docs jieba_cut docs_list topK language verbose s)) =
     logs s @ [''words length: '' @
       str_nat (total_words jieba_cut language
                  (fst (merge_docs jieba_cut docs_list topK language verbose s)))]"
    by (auto simp: merge_inv_def log_words_length_def)
next
  show "fst (merge_docs jieba_cut docs_list topK language verbose s') =
     fst (merge_docs jieba_cut docs_list topK language verbose s)"
    by (rule merge_docs_io)
qed

subsection \<open>Three passages of 1000 words\<close>

text \<open>
  C7, as amended. For a language other than \<open>'ch'\<close>, one ranked list of three passages
  that are pairwise different (by content and metadata) and of 1000 whitespace-separated
  words each, and \<open>topK = 3\<close>: the result is the three passages, so the count of 3000,
  equal to the budget, is admitted, and the entry added to the log is
  \<open>"words length: 3000"\<close>.
\<close>

theorem merge_three_passages_of_1000_words:
  assumes "language \<noteq> ''ch''" and "distinct [d1, d2, d3]"
    and "\<forall>d\<in>set [d1, d2, d3]. length (py_split (page_content d)) = 1000"
  shows "fst (merge_docs jieba_cut [[d1, d2, d3]] 3 language verbose s) = [d1, d2, d3] \<and>
         logs (snd (merge_docs jieba_cut [[d1, d2, d3]] 3 language verbose s)) =
           logs s @ [''words length: 3000'']"
proof -
  have w: "words_len jieba_cut language d1 = 1000" "words_len jieba_cut language d2 = 1000"
    "words_len jieba_cut language d3 = 1000"
    using assms(1,3) by (simp_all add: words_len_def)
  have b: "budget language = 3000" using assms(1) by (simp add: budget_def)
  have r: "[0..<nat 3] = [0, 1, 2]" by (simp add: upt_rec)
  have "merge_docs jieba_cut [[d1, d2, d3]] 3 language verbose s =
          ([d1, d2, d3], log_words_length verbose 3000 s)"
    unfolding merge_docs_def r using assms(2) by (auto simp: merge_body_eq w b)
  then show ?thesis
    by (simp add: log_words_length_def str_nat.simps digit_char_def)
qed

theorem merge_three_passages_of_1000_words_witness:
  "''en'' \<noteq> ''ch'' \<and> distinct [passage ''a'' 1000, passage ''b'' 1000, passage ''c'' 1000] \<and>
   length (py_split (page_content (passage ''a'' 1000))) = 1000 \<and>
   length (py_split (page_content (passage ''b'' 1000))) = 1000 \<and>
   length (py_split (page_content (passage ''c'' 1000))) = 1000 \<and>
   fst (merge_docs char_cut [[passage ''a'' 1000, passage ''b'' 1000, passage ''c'' 1000]] 3 ''en''
          False \<lparr>logs = [''earlier entry''], stdout = []\<rparr>)
     = [passage ''a'' 1000, passage ''b'' 1000, passage ''c'' 1000] \<and>
   logs (snd (merge_docs char_cut [[passage ''a'' 1000, passage ''b'' 1000, passage ''c'' 1000]] 3
          ''en'' False \<lparr>logs = [''earlier entry''], stdout = []\<rparr>))
     = [''earlier entry'', ''words length: 3000'']"
  using merge_three_passages_of_1000_words[of "''en''" "passage ''a'' 1000" "passage ''b'' 1000"
      "passage ''c'' 1000" char_cut False "\<lparr>logs = [''earlier entry''], stdout = []\<rparr>"]
    words_len_passage[of "''en''" char_cut]
  by (simp add: passage_neq words_len_def)

text \<open>
  The claim as it stands asks for three passages in the result for any list of three
  passages of 1000 words. A list that holds one such passage three times gives one
  passage and \<open>"words length: 1000"\<close>: the second and third entries are equal to the
  first and are skipped.
\<close>

theorem merge_three_equal_passages_counterexample:
  "length (py_split (page_content (passage ''a'' 1000))) = 1000 \<and>
   merge_docs char_cut [[passage ''a'' 1000, passage ''a'' 1000, passage ''a'' 1000]] 3 ''en''
       False \<lparr>logs = [], stdout = []\<rparr>
     = ([passage ''a'' 1000], \<lparr>logs = [''words length: 1000''], stdout = []\<rparr>) \<and>
   length (fst (merge_docs char_cut
       [[passage ''a'' 1000, passage ''a'' 1000, passage ''a'' 1000]] 3 ''en''
       False \<lparr>logs = [], stdout = []\<rparr>)) \<noteq> 3"
proof -
  have w: "words_len char_cut ''en'' (passage ''a'' 1000) = 1000"
    by (simp add: words_len_passage)
  have r: "[0..<nat 3] = [0, 1, 2]" by (simp add: upt_rec)
  have m: "merge_docs char_cut [[passage ''a'' 1000, passage ''a'' 1000, passage ''a'' 1000]] 3
       ''en'' False \<lparr>logs = [], stdout = []\<rparr>
     = ([passage ''a'' 1000], \<lparr>logs = [''words length: 1000''], stdout = []\<rparr>)"
    unfolding merge_docs_def r
    by (simp add: merge_body_eq w budget_def log_words_length_def str_nat.simps digit_char_def)
  from w have "length (py_split (page_content (passage ''a'' 1000))) = 1000"
    by (simp add: words_len_def)
  with m show ?thesis by simp
qed

section \<open>Properties of the dispatch\<close>

text \<open>
  C5. When \<open>search_type\<close> is none of \<open>'merge'\<close>, \<open>'mmr'\<close>, \<open>'svm'\<close>, \<open>'tfidf'\<close>,
  \<open>get_docs\<close> raises nothing and returns \<open>None\<close>, whatever the collaborators and the
  other arguments are, and adds one entry to the log, the message
  \<open>"cannot find search type <search_type>, end process\n"\<close>, which names the search
  type; it also prints the message.
\<close>

theorem get_docs_unknown_search_type:
  assumes "search_type \<notin> {''merge'', ''mmr'', ''svm'', ''tfidf''}"
  shows "get_docs mmr_search embed_query svm_scores argsort tfidf_retriever jieba_cut
           db query topK threshold language search_type verbose s =
         (Inr None,
          s\<lparr>logs := logs s @ [''cannot find search type '' @ search_type @ '', end process'' @
                               [CHR 0x0A]],
            stdout := stdout s @ ''cannot find search type '' @ search_type @
                        '', end process'' @ [CHR 0x0A, CHR 0x0A]\<rparr>)"
  using assms by (simp add: get_docs_def Let_def)

theorem get_docs_unknown_search_type_witness:
  "''unknown'' \<notin> {''merge'', ''mmr'', ''svm'', ''tfidf''} \<and>
   get_docs empty_mmr_search unit_embed_query first_coordinate_scores stable_argsort
       (langchain_tfidf_retriever query_share_scores stable_argsort) char_cut small_store
       ''what?'' 3 None ''en'' ''unknown'' False \<lparr>logs = [''earlier entry''], stdout = []\<rparr>
   = (Inr None,
      \<lparr>logs = [''earlier entry'', ''cannot find search type unknown, end process'' @ [CHR 0x0A]],
       stdout = ''cannot find search type unknown, end process'' @ [CHR 0x0A, CHR 0x0A]\<rparr>)"
  using get_docs_unknown_search_type[of "''unknown''" empty_mmr_search unit_embed_query
      first_coordinate_scores stable_argsort
      "langchain_tfidf_retriever query_share_scores stable_argsort" char_cut small_store
      "''what?''" 3 None "''en''" False "\<lparr>logs = [''earlier entry''], stdout = []\<rparr>"]
  by simp

section \<open>Properties of the margin retriever\<close>

lemma np_where_eq_Cons:
  assumes "np_where_eq a v = z # rest"
  shows "z < length a \<and> a ! z = v"
proof -
  have "z \<in> set (np_where_eq a v)" using assms by simp
  then show ?thesis by (auto simp: np_where_eq_def)
qed

lemma np_where_eq_nonempty:
  assumes "v \<in> set a"
  shows "np_where_eq a v \<noteq> []"
proof -
  from assms obtain i where "i < length a" "a ! i = v" by (auto simp: in_set_conv_nth)
  then have "i \<in> set (np_where_eq a v)" by (simp add: np_where_eq_def)
  then show ?thesis by auto
qed

lemma np_where_eq_first:
  assumes "a \<noteq> []" and "a ! 0 = v"
  shows "\<exists>rest. np_where_eq a v = 0 # rest"
proof -
  from assms(1) have "[0..<length a] = 0 # [Suc 0..<length a]"
    by (simp add: upt_conv_Cons)
  with assms(2) show ?thesis by (simp add: np_where_eq_def)
qed

lemma swap_query_first_result:
  assumes "0 \<in> set sorted_ix"
  shows "\<exists>ix'. swap_query_first sorted_ix = Inr ix' \<and> ix' ! 0 = 0 \<and>
           length ix' = length sorted_ix \<and> mset ix' = mset sorted_ix"
proof -
  from np_where_eq_nonempty[OF assms] obtain z rest where
    w: "np_where_eq sorted_ix 0 = z # rest" by (cases "np_where_eq sorted_ix 0") auto
  from np_where_eq_Cons[OF w] have z: "z < length sorted_ix" "sorted_ix ! z = 0" by simp_all
  show ?thesis
  proof (cases "z = 0")
    case True
    with w z show ?thesis by (simp add: swap_query_first_def)
  next
    case False
    with z have "mset (sorted_ix[0 := sorted_ix ! z, z := sorted_ix ! 0]) = mset sorted_ix"
      by (intro mset_swap) auto
    moreover from z have "0 < length sorted_ix" by auto
    ultimately show ?thesis using False w z by (simp add: swap_query_first_def)
  qed
qed

text \<open>
  C9. The swap of lines 64 to 66 is idempotent: on every index array that contains 0 it
  succeeds, and applied to its own result it succeeds again and changes nothing.
\<close>

theorem swap_query_first_idempotent:
  assumes "0 \<in> set sorted_ix"
  shows "\<exists>ix'. swap_query_first sorted_ix = Inr ix' \<and> swap_query_first ix' = Inr ix'"
proof -
  from swap_query_first_result[OF assms] obtain ix' where
    s: "swap_query_first sorted_ix = Inr ix'" and z: "ix' ! 0 = 0"
    and l: "length ix' = length sorted_ix" by blast
  from assms l have "ix' \<noteq> []" by auto
  from np_where_eq_first[OF this z] obtain rest where "np_where_eq ix' 0 = 0 # rest" ..
  then have "swap_query_first ix' = Inr ix'" by (simp add: swap_query_first_def)
  with s show ?thesis by blast
qed

text \<open>The order \<open>[2, 0, 1, 3]\<close>, where row 2 came before the query.\<close>

theorem swap_query_first_idempotent_witness:
  "(0::nat) \<in> set [2, 0, 1, 3] \<and> swap_query_first [2, 0, 1, 3] = Inr [0, 2, 1, 3] \<and>
   swap_query_first [0, 2, 1, 3] = Inr [0, 2, 1, 3]"
  using swap_query_first_idempotent[of "[2, 0, 1, 3]"]
  by (simp add: swap_query_first_def np_where_eq_def)

subsection \<open>The output of the margin retriever\<close>

lemma py_index_pred:
  assumes "1 \<le> row" and "row \<le> length xs"
  shows "py_index xs (int row - 1) = Inr (xs ! (row - 1))"
proof -
  from assms have "nat (int row - 1) = row - 1" by simp
  with assms show ?thesis by (simp add: py_index_def)
qed

lemma py_slice_from_one:
  assumes "0 \<le> k"
  shows "py_slice xs 1 (k + 1) = take (nat k) (drop 1 xs)"
proof -
  have a: "slice_bound (length xs) 1 = min (length xs) 1" by (simp add: slice_bound_def)
  have b: "slice_bound (length xs) (k + 1) = min (length xs) (nat k + 1)"
    using assms by (simp add: slice_bound_def nat_add_distrib)
  show ?thesis
    unfolding py_slice_def Let_def a b
    by (cases xs) (simp_all add: min_def)
qed

lemma np_max_nonempty: "v \<noteq> [] \<Longrightarrow> \<exists>m. np_max v = Inr m"
  by (cases v) simp_all

lemma np_min_nonempty: "v \<noteq> [] \<Longrightarrow> \<exists>m. np_min v = Inr m"
  by (cases v) simp_all

lemma normalize_similarities_length:
  assumes "normalize_similarities v = Inr normalized"
  shows "length normalized = length v"
  using assms
  by (auto simp: normalize_similarities_def Let_def split: sum.splits)

lemma normalize_similarities_nonempty:
  assumes "v \<noteq> []"
  shows "\<exists>normalized. normalize_similarities v = Inr normalized"
  using np_max_nonempty[OF assms] np_min_nonempty[OF assms]
  by (auto simp: normalize_similarities_def Let_def)


lemma passes_threshold_in_range:
  "row < length normalized \<Longrightarrow>
   passes_threshold th normalized row = Inr (passes th normalized row)"
  by (simp add: passes_threshold_def passes_def split: option.splits)

lemma svm_select_rows:
  assumes "\<forall>row\<in>set rows. 1 \<le> row \<and> row < length normalized"
    and "length normalized = Suc (length (documents indx))"
    and "length (metadatas indx) = length (documents indx)"
  shows "svm_select indx th normalized rows acc =
           Inr (acc @ map (\<lambda>row. \<lparr>page_content = documents indx ! (row - 1),
                                   metadata = metadatas indx ! (row - 1)\<rparr>)
                        (filter (passes th normalized) rows))"
  using assms(1)
proof (induction rows arbitrary: acc)
  case Nil
  then show ?case by simp
next
  case (Cons row rows)
  from Cons.prems have r: "1 \<le> row" "row < length normalized" by simp_all
  with assms(2,3) have d: "row_document indx row =
      Inr \<lparr>page_content = documents indx ! (row - 1), metadata = metadatas indx ! (row - 1)\<rparr>"
    by (simp add: row_document_def py_index_pred)
  from Cons.prems have "\<forall>row\<in>set rows. 1 \<le> row \<and> row < length normalized" by simp
  from Cons.IH[OF this] r d show ?case
    by (simp add: passes_threshold_in_range)
qed


lemma svm_rows_after_swap:
  assumes "mset ix = mset [0..<Suc N]" and "ix ! 0 = 0"
  shows "distinct (drop 1 ix) \<and> set (drop 1 ix) \<subseteq> {1..N}"
proof -
  from assms(1) have d: "distinct ix" and s: "set ix = {0..<Suc N}"
    by (metis distinct_upt mset_eq_imp_distinct_iff, metis atLeastLessThan_upt mset_eq_setD)
  from assms(1) have "length ix = Suc N" by (metis length_upt mset_eq_length diff_zero)
  then obtain rest where ix: "ix = ix ! 0 # rest" by (cases ix) auto
  with assms(2) have ix0: "ix = 0 # rest" by simp
  with d have "0 \<notin> set rest" "distinct rest" by auto
  moreover from s ix0 have "set rest \<subseteq> {0..<Suc N}" by auto
  ultimately have "distinct rest \<and> set rest \<subseteq> {1..N}"
    by (auto simp: subset_iff) (metis not_less_eq_eq not0_implies_Suc le_simps(3) le0 less_Suc_eq_le)+
  with ix0 show ?thesis by (metis One_nat_def drop0 drop_Suc_Cons)
qed

text \<open>
  C6. A corpus of \<open>N \<ge> 1\<close> passages, aligned in the store and of the dimension of the
  query embedding; the scorer returns \<open>N + 1\<close> scores and \<open>argsort\<close> a permutation of
  the rows \<open>0..N\<close> (whatever its order among ties); \<open>k\<close> is a count, \<open>k \<ge> 0\<close> (the bound
  \<open>k \<le> N\<close> is not needed). Then the retriever returns, without raising, the corpus
  passages of a list \<open>rows\<close> of row numbers, the passage of row \<open>r\<close> being the one at
  corpus position \<open>r - 1\<close>, where: there are at most \<open>k\<close> rows; there are at most as many
  rows as corpus rows \<open>1..N\<close> whose normalized score passes the threshold; and row 0, the
  query itself, is not among them, every row being one of \<open>1..N\<close>.
\<close>

theorem svm_output_bounds:
  assumes eq: "embed_query query = Inr q"
    and N: "length (documents indx) = N" "length (metadatas indx) = N"
      "length (embeddings indx) = N" "1 \<le> N"
    and dim: "list_all (\<lambda>e. length e = length q) (embeddings indx)"
    and sc: "svm_scores (q # embeddings indx) ((replicate (Suc N) 0)[0 := 1]) = Inr similarities"
      "length similarities = Suc N"
    and perm: "mset (argsort (map uminus similarities)) = mset [0..<Suc N]"
    and nm: "normalize_similarities similarities = Inr normalized"
    and k: "0 \<le> k"
  shows "\<exists>rows.
           get_relevant_doc_svm embed_query svm_scores argsort indx query k relevancy_threshold =
             Inr (map (\<lambda>row. \<lparr>page_content = documents indx ! (row - 1),
                               metadata = metadatas indx ! (row - 1)\<rparr>) rows) \<and>
           int (length rows) \<le> k \<and>
           length rows \<le> length (filter (\<lambda>j. passes_threshold relevancy_threshold normalized j
                                                = Inr True) [1..<Suc N]) \<and>
           0 \<notin> set rows \<and> set rows \<subseteq> {1..N}"
proof -
  let ?ix = "argsort (map uminus similarities)"
  let ?P = "\<lambda>j. passes_threshold relevancy_threshold normalized j = Inr True"
  from N have ne: "embeddings indx \<noteq> []" by auto
  with dim have cat: "np_concatenate_rows q (embeddings indx) = Inr (q # embeddings indx)"
    by (simp add: np_concatenate_rows_def)
  from perm have "0 \<in> set ?ix"
    by (metis atLeastLessThan_iff atLeastLessThan_upt mset_eq_setD zero_less_Suc le0)
  from swap_query_first_result[OF this] obtain ix' where
    sw: "swap_query_first ?ix = Inr ix'" and z: "ix' ! 0 = 0" and m: "mset ix' = mset ?ix"
    by blast
  from m perm have "mset ix' = mset [0..<Suc N]" by simp
  from svm_rows_after_swap[OF this z] have
    dd: "distinct (drop 1 ix')" and ds: "set (drop 1 ix') \<subseteq> {1..N}" by simp_all
  let ?cand = "take (nat k) (drop 1 ix')"
  have sl: "py_slice ix' 1 (k + 1) = ?cand" using k by (rule py_slice_from_one)
  have r0: "distinct ?cand" "set ?cand \<subseteq> {1..N}" "length ?cand \<le> nat k"
    using dd ds by (auto dest: in_set_takeD)
  from normalize_similarities_length[OF nm] sc(2) have ln: "length normalized = Suc N" by simp
  have rng: "\<forall>row\<in>set ?cand. 1 \<le> row \<and> row < length normalized"
    using r0(2) ln by auto
  have sel: "svm_select indx relevancy_threshold normalized ?cand [] =
      Inr ([] @ map (\<lambda>row. \<lparr>page_content = documents indx ! (row - 1),
                               metadata = metadatas indx ! (row - 1)\<rparr>)
                  (filter (passes relevancy_threshold normalized) ?cand))"
    using rng ln N by (intro svm_select_rows) simp_all
  let ?rows = "filter (passes relevancy_threshold normalized) ?cand"
  have run: "get_relevant_doc_svm embed_query svm_scores argsort indx query k relevancy_threshold
      = Inr (map (\<lambda>row. \<lparr>page_content = documents indx ! (row - 1),
                          metadata = metadatas indx ! (row - 1)\<rparr>) ?rows)"
  proof -
    from sc(1) N(3) have sc':
      "svm_scores (q # embeddings indx) (1 # replicate (length (embeddings indx)) 0)
         = Inr similarities" by simp
    from sel show ?thesis
      by (simp add: get_relevant_doc_svm_def eq cat sc' sw nm sl)
  qed
  have l1: "int (length ?rows) \<le> k"
  proof -
    have "length ?rows \<le> length ?cand" by (rule length_filter_le)
    with r0(3) k show ?thesis by linarith
  qed
  have sub: "set ?rows \<subseteq> set (filter ?P [1..<Suc N])"
  proof
    fix j assume j: "j \<in> set ?rows"
    then have "j \<in> set ?cand" "passes relevancy_threshold normalized j" by simp_all
    with r0(2) ln have "1 \<le> j" "j < Suc N" "?P j"
      by (auto simp: passes_threshold_in_range)
    then show "j \<in> set (filter ?P [1..<Suc N])" by (simp del: upt_Suc)
  qed
  have l2: "length ?rows \<le> length (filter ?P [1..<Suc N])"
  proof -
    have "distinct ?rows" using r0(1) by simp
    then have "length ?rows = card (set ?rows)" by (rule distinct_card[symmetric])
    also have "\<dots> \<le> card (set (filter ?P [1..<Suc N]))"
      using sub by (intro card_mono) (simp_all del: upt_Suc)
    also have "\<dots> \<le> length (filter ?P [1..<Suc N])" by (rule card_length)
    finally show ?thesis .
  qed
  have l3: "0 \<notin> set ?rows" "set ?rows \<subseteq> {1..N}" using r0(2) by auto
  from run l1 l2 l3 show ?thesis by blast
qed

subsection \<open>A run on the store of three passages\<close>

lemma mset_stable_argsort: "mset (stable_argsort v) = mset [0..<length v]"
  by (simp add: stable_argsort_def)

lemma small_scores:
  "first_coordinate_scores ([1, 0] # embeddings small_store) y = Inr [1, 1 / 2, 2, 1 / 10]"
  by (simp add: first_coordinate_scores_def small_store_def)

lemma small_argsort: "stable_argsort (map uminus [1, 1 / 2, 2, 1 / 10]) = [2, 0, 1, 3]"
  by (simp add: stable_argsort_def)

lemma small_normalized:
  "normalize_similarities [1, 1 / 2, 2, 1 / 10] =
     Inr [900000 / 1900001, 400000 / 1900001, 1900000 / 1900001, 0]"
  by (simp add: normalize_similarities_def Let_def)

lemma small_run:
  "get_relevant_doc_svm unit_embed_query first_coordinate_scores stable_argsort small_store
     ''what?'' 2 (Some (3 / 10)) = Inr [\<lparr>page_content = ''w w w '', metadata = ''b''\<rparr>]"
proof -
  have c: "np_concatenate_rows [1, 0] (embeddings small_store) = Inr ([1, 0] # embeddings small_store)"
    by (simp add: np_concatenate_rows_def small_store_def)
  have l: "length ([1, 0] # embeddings small_store) = 4" by (simp add: small_store_def)
  have sw: "swap_query_first [2, 0, 1, 3] = Inr [0, 2, 1, 3]"
    by (simp add: swap_query_first_def np_where_eq_def)
  have sl: "py_slice [0, 2, 1, 3 :: nat] 1 (2 + 1) = [2, 1]"
    by (simp add: py_slice_def slice_bound_def)
  have sel: "svm_select small_store (Some (3 / 10))
      [900000 / 1900001, 400000 / 1900001, 1900000 / 1900001, 0] [2, 1] [] =
      Inr [\<lparr>page_content = ''w w w '', metadata = ''b''\<rparr>]"
    by (simp add: passes_threshold_def row_document_def py_index_def small_store_def)
  show ?thesis
    unfolding get_relevant_doc_svm_def
    by (simp only: unit_embed_query_def c sum.case small_scores small_argsort sw
        small_normalized sl sel)
qed


text \<open>The store of three passages with \<open>k = 2\<close> and threshold 0.3: the sorted order
  \<open>[2, 0, 1, 3]\<close> becomes \<open>[0, 2, 1, 3]\<close>, rows 2 and 1 are visited and only row 2
  passes.\<close>

theorem svm_output_bounds_witness:
  "unit_embed_query ''what?'' = Inr [1, 0] \<and>
   length (documents small_store) = 3 \<and> length (metadatas small_store) = 3 \<and>
   length (embeddings small_store) = 3 \<and> (1::nat) \<le> 3 \<and>
   list_all (\<lambda>e. length e = length [1, 0 :: real]) (embeddings small_store) \<and>
   first_coordinate_scores ([1, 0] # embeddings small_store) ((replicate (Suc 3) 0)[0 := 1])
     = Inr [1, 1 / 2, 2, 1 / 10] \<and>
   length [1, 1 / 2, 2, 1 / 10 :: real] = Suc 3 \<and>
   mset (stable_argsort (map uminus [1, 1 / 2, 2, 1 / 10])) = mset [0..<Suc 3] \<and>
   normalize_similarities [1, 1 / 2, 2, 1 / 10]
     = Inr [900000 / 1900001, 400000 / 1900001, 1900000 / 1900001, 0] \<and>
   (0::int) \<le> 2 \<and>
   get_relevant_doc_svm unit_embed_query first_coordinate_scores stable_argsort small_store
     ''what?'' 2 (Some (3 / 10)) = Inr [\<lparr>page_content = ''w w w '', metadata = ''b''\<rparr>] \<and>
   (\<exists>rows.
      get_relevant_doc_svm unit_embed_query first_coordinate_scores stable_argsort small_store
        ''what?'' 2 (Some (3 / 10)) =
        Inr (map (\<lambda>row. \<lparr>page_content = documents small_store ! (row - 1),
                          metadata = metadatas small_store ! (row - 1)\<rparr>) rows) \<and>
      int (length rows) \<le> 2 \<and>
      length rows \<le> length (filter (\<lambda>j. passes_threshold (Some (3 / 10))
          [900000 / 1900001, 400000 / 1900001, 1900000 / 1900001, 0] j = Inr True) [1..<Suc 3]) \<and>
      0 \<notin> set rows \<and> set rows \<subseteq> {1..3})"
proof -
  have h1: "unit_embed_query ''what?'' = Inr [1, 0]" by (simp add: unit_embed_query_def)
  have h2: "length (documents small_store) = 3" "length (metadatas small_store) = 3"
    "length (embeddings small_store) = 3" "(1::nat) \<le> 3"
    by (simp_all add: small_store_def)
  have h3: "list_all (\<lambda>e. length e = length [1, 0 :: real]) (embeddings small_store)"
    by (simp add: small_store_def)
  have h4: "first_coordinate_scores ([1, 0] # embeddings small_store)
      ((replicate (Suc 3) 0)[0 := 1]) = Inr [1, 1 / 2, 2, 1 / 10]"
    by (rule small_scores)
  have h5: "length [1, 1 / 2, 2, 1 / 10 :: real] = Suc 3" by simp
  have h6: "mset (stable_argsort (map uminus [1, 1 / 2, 2, 1 / 10])) = mset [0..<Suc 3]"
  proof -
    have "length (map uminus [1, 1 / 2, 2, 1 / 10 :: real]) = Suc 3" by simp
    then show ?thesis by (metis mset_stable_argsort)
  qed
  have h7: "(0::int) \<le> 2" by simp
  note t = svm_output_bounds[where embed_query = unit_embed_query and query = "''what?''"
      and svm_scores = first_coordinate_scores and argsort = stable_argsort
      and indx = small_store and relevancy_threshold = "Some (3 / 10)",
      OF h1 h2 h3 h4 h5 h6 small_normalized h7]
  from h1 h2 h3 h4 h5 h6 h7 small_normalized small_run t show ?thesis by blast
qed

subsection \<open>The empty corpus\<close>

text \<open>
  C3, as amended. On an empty corpus (no embedding in the store) the margin retriever
  returns no list: it raises. When the embedding service answers, the exception is the
  \<open>ValueError\<close> of the concatenation in line 47, raised before the classifier is
  reached, whatever the classifier, \<open>k\<close> and the threshold are; the function has no
  guard for an empty corpus.
\<close>

theorem svm_empty_corpus_raises:
  "get_relevant_doc_svm embed_query svm_scores argsort (indx\<lparr>embeddings := []\<rparr>) query k
       relevancy_threshold =
     (case embed_query query of Inl e \<Rightarrow> Inl e | Inr query_embeds \<Rightarrow> Inl ValueError)"
  by (simp add: get_relevant_doc_svm_def np_concatenate_rows_def split: sum.splits)

text \<open>The claim as it stands asks for an empty list and no exception.\<close>

theorem svm_empty_corpus_counterexample:
  "get_relevant_doc_svm unit_embed_query first_coordinate_scores stable_argsort
       \<lparr>documents = [], metadatas = ([] :: string list), embeddings = []\<rparr> ''what?'' 3 None
     = Inl ValueError \<and>
   get_relevant_doc_svm unit_embed_query first_coordinate_scores stable_argsort
       \<lparr>documents = [], metadatas = ([] :: string list), embeddings = []\<rparr> ''what?'' 3 None
     \<noteq> Inr []"
  by (simp add: get_relevant_doc_svm_def np_concatenate_rows_def unit_embed_query_def)

section \<open>Properties of the lexical retriever\<close>

lemma tfidf_docs_list_eq:
  assumes "\<forall>i\<in>set idx. i < length ms"
  shows "tfidf_docs_list ds ms idx acc =
           Inr (acc @ map (\<lambda>i. \<lparr>page_content = ds ! i, metadata = ms ! i\<rparr>) idx)"
  using assms by (induction idx arbitrary: acc) simp_all

lemma map_index_zip:
  assumes "length ms = length ds"
  shows "map (\<lambda>i. \<lparr>page_content = ds ! i, metadata = ms ! i\<rparr>) [0..<length ds] =
         map2 (\<lambda>c m. \<lparr>page_content = c, metadata = m\<rparr>) ds ms"
  using assms by (intro nth_equalityI) simp_all

lemma py_slice_prefix:
  assumes "0 \<le> k"
  shows "py_slice xs 0 k = take (nat k) xs"
  using assms by (simp add: py_slice_def slice_bound_def min_def)

lemma tfidf_corpus_documents:
  assumes "length (metadatas all_docs) = length (documents all_docs)"
  shows "tfidf_docs_list (documents all_docs) (metadatas all_docs)
           [0..<length (documents all_docs)] [] =
         Inr (map2 (\<lambda>c m. \<lparr>page_content = c, metadata = m\<rparr>) (documents all_docs)
                (metadatas all_docs))"
  using assms by (simp add: tfidf_docs_list_eq map_index_zip)

lemma docs_at_in_range:
  assumes "\<forall>i\<in>set idx. i < length docs"
  shows "docs_at docs idx = Inr (map ((!) docs) idx)"
  using assms by (induction idx) simp_all

lemma py_slice_last_four:
  "py_slice xs (- 4) (int (length xs)) = drop (length xs - 4) xs"
proof -
  have a: "slice_bound (length xs) (- 4) = length xs - 4"
    by (simp add: slice_bound_def)
  have b: "slice_bound (length xs) (int (length xs)) = length xs"
    by (simp add: slice_bound_def)
  show ?thesis unfolding py_slice_def Let_def a b by simp
qed

text \<open>
  C4. The claim asks for exactly \<open>min(k, corpusSize)\<close> passages, and the docstring of
  \<open>_get_relevant_doc_tfidf\<close> for the first \<open>k\<close> documents. The code returns fewer
  once \<open>k\<close> and the corpus both exceed four: line 25 gives \<open>k\<close> to the library's
  retriever under the keyword \<open>search_kwargs\<close>, which that retriever does not read, so
  its result size stays four. For a store of \<open>N\<close> passages with aligned metadata, every
  scorer that scores them, every \<open>argsort\<close> that returns a permutation and \<open>k \<ge> 0\<close>,
  the function returns exactly \<open>min(k, 4, N)\<close> passages, all of the corpus.
\<close>

theorem tfidf_returns_at_most_four:
  assumes "length (documents all_docs) = N" and "length (metadatas all_docs) = N"
    and "tfidf_scores
           (map2 (\<lambda>c m. \<lparr>page_content = c, metadata = m\<rparr>) (documents all_docs)
              (metadatas all_docs)) query = Inr results"
    and "length results = N"
    and "mset (argsort results) = mset [0..<N]"
    and "0 \<le> k"
  shows "\<exists>result.
           get_relevant_doc_tfidf (langchain_tfidf_retriever tfidf_scores argsort) all_docs query k
             = Inr result \<and>
           length result = min (nat k) (min 4 N) \<and>
           set result \<subseteq> set (map2 (\<lambda>c m. \<lparr>page_content = c, metadata = m\<rparr>)
                                (documents all_docs) (metadatas all_docs))"
proof -
  let ?docs = "map2 (\<lambda>c m. \<lparr>page_content = c, metadata = m\<rparr>) (documents all_docs)
                 (metadatas all_docs)"
  let ?ix = "argsort results"
  let ?best = "rev (drop (length ?ix - 4) ?ix)"
  have ld: "length ?docs = N" using assms(1,2) by simp
  from assms(5) have li: "length ?ix = N" and si: "set ?ix = {0..<N}"
    by (metis length_upt mset_eq_length diff_zero, metis atLeastLessThan_upt mset_eq_setD)
  have "\<forall>i\<in>set ?best. i < length ?docs"
    using si ld by (auto dest: in_set_dropD)
  from docs_at_in_range[OF this] have
    at: "docs_at ?docs ?best = Inr (map ((!) ?docs) ?best)" .
  have lb: "length ?best = min 4 N" using li by auto
  have retr: "langchain_tfidf_retriever tfidf_scores argsort ?docs k query =
                Inr (map ((!) ?docs) ?best)"
    using at by (simp add: langchain_tfidf_retriever_def assms(3) py_slice_last_four)
  have run: "get_relevant_doc_tfidf (langchain_tfidf_retriever tfidf_scores argsort) all_docs
               query k = Inr (take (nat k) (map ((!) ?docs) ?best))"
  proof -
    have c: "tfidf_docs_list (documents all_docs) (metadatas all_docs)
               [0..<length (documents all_docs)] [] = Inr ?docs"
      using assms(1,2) by (intro tfidf_corpus_documents) simp
    show ?thesis
      unfolding get_relevant_doc_tfidf_def c sum.case retr
      by (simp add: py_slice_prefix[OF assms(6)])
  qed
  have len: "length (take (nat k) (map ((!) ?docs) ?best)) = min (nat k) (min 4 N)"
    using lb by (simp add: min.commute)
  have sub: "set (take (nat k) (map ((!) ?docs) ?best)) \<subseteq> set ?docs"
  proof
    fix d assume "d \<in> set (take (nat k) (map ((!) ?docs) ?best))"
    then have "d \<in> set (map ((!) ?docs) ?best)" by (rule in_set_takeD)
    then obtain i where "i \<in> set ?best" "d = ?docs ! i" by auto
    moreover from this(1) si ld have "i < length ?docs" by (auto dest: in_set_dropD)
    ultimately show "d \<in> set ?docs" by (simp only: nth_mem)
  qed
  from run len sub show ?thesis by blast
qed

subsection \<open>A run on the store of six passages\<close>

lemma fruit_docs:
  "map2 (\<lambda>c m. \<lparr>page_content = c, metadata = m\<rparr>) (documents fruit_store)
     (metadatas fruit_store)
     = [\<lparr>page_content = ''apple'', metadata = ''a''\<rparr>,
        \<lparr>page_content = ''apple banana'', metadata = ''b''\<rparr>,
        \<lparr>page_content = ''apple banana cherry'', metadata = ''c''\<rparr>,
        \<lparr>page_content = ''apple banana cherry durian'', metadata = ''d''\<rparr>,
        \<lparr>page_content = ''banana cherry'', metadata = ''e''\<rparr>,
        \<lparr>page_content = ''cherry durian'', metadata = ''f''\<rparr>]"
  by (simp add: fruit_store_def)

lemma fruit_words:
  "py_split ''apple'' = [''apple'']"
  "py_split ''apple banana'' = [''apple'', ''banana'']"
  "py_split ''apple banana cherry'' = [''apple'', ''banana'', ''cherry'']"
  "py_split ''apple banana cherry durian'' = [''apple'', ''banana'', ''cherry'', ''durian'']"
  "py_split ''banana cherry'' = [''banana'', ''cherry'']"
  "py_split ''cherry durian'' = [''cherry'', ''durian'']"
  by (simp_all add: py_split_def py_isspace_def)

lemma fruit_scores:
  "query_share_scores
     (map2 (\<lambda>c m. \<lparr>page_content = c, metadata = m\<rparr>) (documents fruit_store)
        (metadatas fruit_store)) ''apple''
     = Inr [1, 1 / 2, 1 / 3, 1 / 4, 0, 0]"
  unfolding fruit_docs by (simp add: query_share_scores_def fruit_words)

lemma fruit_argsort: "stable_argsort [1, 1 / 2, 1 / 3, 1 / 4, 0, 0] = [4, 5, 3, 2, 1, 0]"
  by (simp add: stable_argsort_def)

lemma fruit_run:
  "get_relevant_doc_tfidf (langchain_tfidf_retriever query_share_scores stable_argsort)
       fruit_store ''apple'' 5
     = Inr [\<lparr>page_content = ''apple'', metadata = ''a''\<rparr>,
            \<lparr>page_content = ''apple banana'', metadata = ''b''\<rparr>,
            \<lparr>page_content = ''apple banana cherry'', metadata = ''c''\<rparr>,
            \<lparr>page_content = ''apple banana cherry durian'', metadata = ''d''\<rparr>]"
proof -
  have c: "tfidf_docs_list (documents fruit_store) (metadatas fruit_store)
             [0..<length (documents fruit_store)] [] =
           Inr (map2 (\<lambda>c m. \<lparr>page_content = c, metadata = m\<rparr>) (documents fruit_store)
                  (metadatas fruit_store))"
    by (rule tfidf_corpus_documents) (simp add: fruit_store_def)
  have sl: "rev (py_slice [4, 5, 3, 2, 1, 0 :: nat] (- 4) (int (length [4, 5, 3, 2, 1, 0 :: nat])))
              = [0, 1, 2, 3]"
    by (simp add: py_slice_def slice_bound_def)
  have r: "langchain_tfidf_retriever query_share_scores stable_argsort
             (map2 (\<lambda>c m. \<lparr>page_content = c, metadata = m\<rparr>) (documents fruit_store)
                (metadatas fruit_store)) 5 ''apple''
           = Inr [\<lparr>page_content = ''apple'', metadata = ''a''\<rparr>,
                  \<lparr>page_content = ''apple banana'', metadata = ''b''\<rparr>,
                  \<lparr>page_content = ''apple banana cherry'', metadata = ''c''\<rparr>,
                  \<lparr>page_content = ''apple banana cherry durian'', metadata = ''d''\<rparr>]"
    unfolding langchain_tfidf_retriever_def fruit_scores sum.case fruit_argsort sl
    unfolding fruit_docs by simp
  show ?thesis
    unfolding get_relevant_doc_tfidf_def c sum.case r
    by (simp add: py_slice_prefix)
qed

text \<open>Six passages, the query \<open>apple\<close> and \<open>k = 5\<close>: the four best passages are
  returned, in descending order of score, and not \<open>min(5, 6) = 5\<close> passages.\<close>

theorem tfidf_returns_at_most_four_witness:
  "length (documents fruit_store) = 6 \<and> length (metadatas fruit_store) = 6 \<and>
   query_share_scores
     (map2 (\<lambda>c m. \<lparr>page_content = c, metadata = m\<rparr>) (documents fruit_store)
        (metadatas fruit_store)) ''apple''
     = Inr [1, 1 / 2, 1 / 3, 1 / 4, 0, 0] \<and>
   length [1, 1 / 2, 1 / 3, 1 / 4, 0, 0 :: real] = 6 \<and>
   mset (stable_argsort [1, 1 / 2, 1 / 3, 1 / 4, 0, 0]) = mset [0..<6] \<and>
   (0::int) \<le> 5 \<and>
   get_relevant_doc_tfidf (langchain_tfidf_retriever query_share_scores stable_argsort)
       fruit_store ''apple'' 5
     = Inr [\<lparr>page_content = ''apple'', metadata = ''a''\<rparr>,
            \<lparr>page_content = ''apple banana'', metadata = ''b''\<rparr>,
            \<lparr>page_content = ''apple banana cherry'', metadata = ''c''\<rparr>,
            \<lparr>page_content = ''apple banana cherry durian'', metadata = ''d''\<rparr>] \<and>
   (\<exists>result.
      get_relevant_doc_tfidf (langchain_tfidf_retriever query_share_scores stable_argsort)
          fruit_store ''apple'' 5 = Inr result \<and>
      length result = min (nat 5) (min 4 6) \<and>
      set result \<subseteq> set (map2 (\<lambda>c m. \<lparr>page_content = c, metadata = m\<rparr>)
                           (documents fruit_store) (metadatas fruit_store))) \<and>
   min (nat 5) (min 4 6) = (4::nat) \<and>
   (4::nat) \<noteq> min (nat 5) (length (documents fruit_store))"
proof -
  have h1: "length (documents fruit_store) = 6" "length (metadatas fruit_store) = 6"
    by (simp_all add: fruit_store_def)
  have h4: "length [1, 1 / 2, 1 / 3, 1 / 4, 0, 0 :: real] = 6" by simp
  have h5: "mset (stable_argsort [1, 1 / 2, 1 / 3, 1 / 4, 0, 0]) = mset [0..<6]"
    using h4 by (metis mset_stable_argsort)
  have h6: "(0::int) \<le> 5" by simp
  note t = tfidf_returns_at_most_four[where all_docs = fruit_store
      and tfidf_scores = query_share_scores and argsort = stable_argsort
      and query = "''apple''", OF h1 fruit_scores h4 h5 h6]
  have e: "min (nat 5) (min 4 6) = (4::nat)"
    "(4::nat) \<noteq> min (nat 5) (length (documents fruit_store))"
    using h1 by simp_all
  from h1 fruit_scores h4 h5 h6 fruit_run t e show ?thesis by blast
qed

end
